theory Spec2Isabelle
  imports Main "HOL-Library.Word" "HOL-Library.Sublist"
begin

section \<open>The comment feed of \<^verbatim>\<open>comment-feed.tsx\<close>\<close>

text \<open>
  The component \<^verbatim>\<open>CommentFeed\<close> keeps three pieces of React state (the comment
  list, the form and the submitting flag), changes them in three handlers
  (\<^verbatim>\<open>handleFieldChange\<close>, \<^verbatim>\<open>handleSubmit\<close>, \<^verbatim>\<open>toggleLike\<close>) and derives three values
  from them (\<^verbatim>\<open>relativeTimeFromNow\<close>, \<^verbatim>\<open>extractHashtags\<close>, \<^verbatim>\<open>interactionsToday\<close>).
  Each handler is modelled as a function from the state before to the state after.
\<close>

subsection \<open>Strings\<close>

text \<open>
  A JavaScript string is a sequence of UTF-16 code units; \<^verbatim>\<open>length\<close>, \<^verbatim>\<open>slice\<close>,
  \<^verbatim>\<open>startsWith\<close> and the regular expressions of this file (none has the \<^verbatim>\<open>u\<close> flag)
  all work on code units.
\<close>

type_synonym jschar = "16 word"
type_synonym jsstring = "jschar list"

definition str :: "string \<Rightarrow> jsstring" where
  "str s = map of_char s"

text \<open>
  The characters matched by \<^verbatim>\<open>\s\<close> and removed by \<^verbatim>\<open>trim()\<close>: ECMAScript's WhiteSpace
  and LineTerminator code points, all of them single code units.
\<close>

definition isSpace :: "jschar \<Rightarrow> bool" where
  "isSpace c \<longleftrightarrow>
     (let n = unat c in
      (9 \<le> n \<and> n \<le> 13) \<or> n = 32 \<or> n = 160 \<or> n = 5760 \<or> (8192 \<le> n \<and> n \<le> 8202) \<or>
      n = 8232 \<or> n = 8233 \<or> n = 8239 \<or> n = 8287 \<or> n = 12288 \<or> n = 65279)"

definition trim :: "jsstring \<Rightarrow> jsstring" where
  "trim s = rev (dropWhile isSpace (rev (dropWhile isSpace s)))"

text \<open>\<^verbatim>\<open>value.replace(/\s+/g, "")\<close>: every run of white space is deleted.\<close>

definition removeSpaces :: "jsstring \<Rightarrow> jsstring" where
  "removeSpaces s = filter (\<lambda>c. \<not> isSpace c) s"

text \<open>\<^verbatim>\<open>s.slice(0, n)\<close> for \<^verbatim>\<open>n \<ge> 0\<close>: the first \<^verbatim>\<open>n\<close> code units, all of \<^verbatim>\<open>s\<close> when it is shorter.\<close>

definition slice0 :: "nat \<Rightarrow> jsstring \<Rightarrow> jsstring" where
  "slice0 n s = take n s"

definition startsWith :: "jsstring \<Rightarrow> jsstring \<Rightarrow> bool" where
  "startsWith s p \<longleftrightarrow> take (length p) s = p"

subsection \<open>Data\<close>

text \<open>
  \<^verbatim>\<open>createdAt\<close> is an ISO-8601 string in the source, always the \<^verbatim>\<open>toISOString()\<close> of a
  valid date and read back only through \<^verbatim>\<open>new Date(isoDate).getTime()\<close>; the model keeps
  the instant it denotes, in milliseconds since the epoch. \<^verbatim>\<open>isLiked\<close> is an optional
  field: \<open>None\<close> is JavaScript's \<^verbatim>\<open>undefined\<close>. Numbers are integers here (counts that
  change by one, differences of millisecond clocks), far below \<open>2^53\<close>, where the
  arithmetic of doubles is exact.
\<close>

record Comment =
  id_c :: jsstring
  displayName :: jsstring
  username :: jsstring
  avatarColor :: jsstring
  content :: jsstring
  createdAt :: int
  likes :: int
  isLiked :: "bool option"
  replies :: int

record FormState =
  form_displayName :: jsstring
  form_username :: jsstring
  form_content :: jsstring

datatype formField = DisplayName | Username | Content

record state =
  comments :: "Comment list"
  formState :: FormState
  isSubmitting :: bool

definition MAX_CHAR_COUNT :: nat where
  "MAX_CHAR_COUNT = 280"

definition initialForm :: FormState where
  "initialForm = \<lparr>form_displayName = [], form_username = [], form_content = []\<rparr>"

subsection \<open>Editing the form\<close>

text \<open>
  \<^verbatim>\<open>handleFieldChange(field, value)\<close> stores \<^verbatim>\<open>value\<close> under the key \<^verbatim>\<open>field\<close>, without
  white space when the field is the username.
\<close>

definition setField :: "formField \<Rightarrow> jsstring \<Rightarrow> FormState \<Rightarrow> FormState" where
  "setField f v prev =
     (case f of
        DisplayName \<Rightarrow> prev\<lparr>form_displayName := v\<rparr>
      | Username \<Rightarrow> prev\<lparr>form_username := v\<rparr>
      | Content \<Rightarrow> prev\<lparr>form_content := v\<rparr>)"

definition handleFieldChange :: "formField \<Rightarrow> jsstring \<Rightarrow> state \<Rightarrow> state" where
  "handleFieldChange f v st =
     st\<lparr>formState := setField f (if f = Username then removeSpaces v else v) (formState st)\<rparr>"

text \<open>
  The \<^verbatim>\<open>onChange\<close> handlers of the three inputs. The two text inputs pass the typed value
  on; the textarea of the content passes \<^verbatim>\<open>event.target.value.slice(0, MAX_CHAR_COUNT)\<close>.
  These handlers are the only callers of \<^verbatim>\<open>handleFieldChange\<close>, so \<open>onChange\<close> is the
  edit command that the form offers.
\<close>

definition onChange :: "formField \<Rightarrow> jsstring \<Rightarrow> state \<Rightarrow> state" where
  "onChange f v st =
     (case f of
        DisplayName \<Rightarrow> handleFieldChange DisplayName v st
      | Username \<Rightarrow> handleFieldChange Username v st
      | Content \<Rightarrow> handleFieldChange Content (slice0 MAX_CHAR_COUNT v) st)"

subsection \<open>The seed comments and the initial state\<close>

text \<open>
  The seeds are built once, when the module is loaded; \<open>t0\<close> is the value of
  \<^verbatim>\<open>Date.now()\<close> at that moment (its three calls taken as one instant). The first seed holds U+2728, the third U+1F525 (a
  surrogate pair) and U+2014.
\<close>

definition seedComments :: "int \<Rightarrow> Comment list" where
  "seedComments t0 =
     [\<lparr>id_c = str ''c1'', displayName = str ''Ava Chen'', username = str ''@avacodes'',
       avatarColor = str ''bg-indigo-500'',
       content = str ''Shipping a small UI polish today '' @ [0x2728] @
                 str '' Keeping micro-interactions smooth makes all the difference.'',
       createdAt = t0 - 1000 * 60 * 60 * 2, likes = 24, isLiked = Some False, replies = 5\<rparr>,
      \<lparr>id_c = str ''c2'', displayName = str ''Daniel Park'', username = str ''@dpark'',
       avatarColor = str ''bg-emerald-500'',
       content = str ''Loving how this community shares feedback constructively. Keep the #buildinpublic energy going!'',
       createdAt = t0 - 1000 * 60 * 25, likes = 12, isLiked = Some False, replies = 2\<rparr>,
      \<lparr>id_c = str ''c3'', displayName = str ''Sofia Morales'', username = str ''@soficode'',
       avatarColor = str ''bg-rose-500'',
       content = str ''Just wrapped the v2 prototype. Dark mode feels '' @ [0xD83D, 0xDD25] @
                 str '' '' @ [0x2014] @
                 str '' shipping screenshots later today. #design #ui'',
       createdAt = t0 - 1000 * 60 * 6, likes = 31, isLiked = Some False, replies = 9\<rparr>]"

definition initialState :: "int \<Rightarrow> state" where
  "initialState t0 =
     \<lparr>comments = seedComments t0, formState = initialForm, isSubmitting = False\<rparr>"

subsection \<open>Submitting\<close>

text \<open>
  \<^verbatim>\<open>handleSubmit\<close> returns early, changing nothing, when a trimmed field is the empty
  string (the only falsy string). Otherwise it builds the comment and puts it in front.
  \<open>newId\<close> is the result of \<^verbatim>\<open>crypto.randomUUID()\<close> and \<open>now\<close> the instant of
  \<^verbatim>\<open>new Date()\<close>. The timer started at the end runs later, as an event of its own
  (\<open>submitTimeout\<close>).
\<close>

definition handleSubmit :: "jsstring \<Rightarrow> int \<Rightarrow> state \<Rightarrow> state" where
  "handleSubmit newId now st =
     (let form = formState st in
      if trim (form_displayName form) = [] \<or> trim (form_username form) = [] then st
      else if trim (form_content form) = [] then st
      else
        let normalizedHandle =
              (if startsWith (form_username form) (str ''@'') then form_username form
               else str ''@'' @ form_username form);
            newComment =
              \<lparr>id_c = newId, displayName = trim (form_displayName form),
               username = normalizedHandle, avatarColor = str ''bg-sky-500'',
               content = trim (form_content form), createdAt = now,
               likes = 0, isLiked = Some False, replies = 0\<rparr>
        in st\<lparr>comments := newComment # comments st, formState := initialForm,
               isSubmitting := True\<rparr>)"

definition submitTimeout :: "state \<Rightarrow> state" where
  "submitTimeout st = st\<lparr>isSubmitting := False\<rparr>"

subsection \<open>Liking\<close>

text \<open>
  \<^verbatim>\<open>!comment.isLiked\<close> and the renderer's \<^verbatim>\<open>comment.isLiked ? ... : ...\<close> read the field
  by its truthiness: \<^verbatim>\<open>undefined\<close> counts as \<^verbatim>\<open>false\<close>.
\<close>

definition truthy :: "bool option \<Rightarrow> bool" where
  "truthy b \<longleftrightarrow> b = Some True"

definition toggleComment :: "jsstring \<Rightarrow> Comment \<Rightarrow> Comment" where
  "toggleComment commentId comment =
     (if id_c comment \<noteq> commentId then comment
      else
        let nextLiked = \<not> truthy (isLiked comment)
        in comment\<lparr>isLiked := Some nextLiked,
                    likes := likes comment + (if nextLiked then 1 else - 1)\<rparr>)"

definition toggleLike :: "jsstring \<Rightarrow> state \<Rightarrow> state" where
  "toggleLike commentId st = st\<lparr>comments := map (toggleComment commentId) (comments st)\<rparr>"

subsection \<open>The interaction count\<close>

definition interactionsToday :: "state \<Rightarrow> int" where
  "interactionsToday st =
     foldl (\<lambda>total comment. total + likes comment + replies comment) 0 (comments st)"

subsection \<open>Runs of the component\<close>

text \<open>
  The events that change the state: an edit of a form field, a submit (with the id and
  the instant it draws), a click on a like button, and the timer that clears the
  submitting flag.
\<close>

datatype command =
    EditField formField jsstring
  | Submit jsstring int
  | ToggleLike jsstring
  | SubmitTimeout

fun step :: "command \<Rightarrow> state \<Rightarrow> state" where
  "step (EditField f v) st = onChange f v st"
| "step (Submit newId now) st = handleSubmit newId now st"
| "step (ToggleLike commentId) st = toggleLike commentId st"
| "step SubmitTimeout st = submitTimeout st"

definition run :: "command list \<Rightarrow> state \<Rightarrow> state" where
  "run cmds st = foldl (\<lambda>s c. step c s) st cmds"

subsection \<open>Relative time\<close>

text \<open>
  A template literal prints an integer below \<open>10^21\<close> in decimal digits, with a minus
  sign when it is negative.
\<close>

definition digit :: "nat \<Rightarrow> jschar" where
  "digit d = of_nat (48 + d)"

fun digits :: "nat \<Rightarrow> jsstring" where
  "digits n = (if n < 10 then [digit n] else digits (n div 10) @ [digit (n mod 10)])"

declare digits.simps [simp del]

definition numberToString :: "int \<Rightarrow> jsstring" where
  "numberToString n = (if n < 0 then str ''-'' @ digits (nat (- n)) else digits (nat n))"

text \<open>
  \<^verbatim>\<open>relativeTimeFromNow(isoDate)\<close> reads the clock itself; \<open>now\<close> is the value of
  \<^verbatim>\<open>Date.now()\<close> and \<open>isoDate\<close> the instant of the comment, both in milliseconds.
  \<^verbatim>\<open>Math.floor(a / b)\<close> on integers with \<open>b > 0\<close> is \<open>a div b\<close>.
\<close>

definition relativeTimeFromNow :: "int \<Rightarrow> int \<Rightarrow> jsstring" where
  "relativeTimeFromNow now isoDate =
     (let diffMs = now - isoDate in
      if diffMs < 60000 then str ''just now''
      else
        let minutes = diffMs div 60000 in
        if minutes < 60 then numberToString minutes @ str ''m''
        else
          let hours = minutes div 60 in
          if hours < 24 then numberToString hours @ str ''h''
          else
            let days = hours div 24 in
            if days < 7 then numberToString days @ str ''d''
            else
              let weeks = days div 7 in
              if weeks < 5 then numberToString weeks @ str ''w''
              else
                let months = days div 30 in
                if months < 12 then numberToString months @ str ''mo''
                else
                  let years = days div 365 in
                  numberToString years @ str ''y'')"

text \<open>
  The label as the specification words it, from the elapsed milliseconds: the month
  labels run up to (not including) 365 days.
\<close>

definition relativeLabel_spec :: "int \<Rightarrow> jsstring" where
  "relativeLabel_spec elapsed =
     (let days = elapsed div 86400000 in
      if elapsed < 60 * 1000 then str ''just now''
      else if elapsed < 60 * 60000 then numberToString (elapsed div 60000) @ str ''m''
      else if elapsed < 24 * 3600000 then numberToString (elapsed div 3600000) @ str ''h''
      else if elapsed < 7 * 86400000 then numberToString days @ str ''d''
      else if elapsed < 35 * 86400000 then numberToString (days div 7) @ str ''w''
      else if elapsed < 365 * 86400000 then numberToString (days div 30) @ str ''mo''
      else numberToString (days div 365) @ str ''y'')"

subsection \<open>Trending hashtags\<close>

text \<open>
  The characters of the class \<^verbatim>\<open>[a-z0-9_]\<close> under the flag \<^verbatim>\<open>i\<close>. Without the flag \<^verbatim>\<open>u\<close>
  a code unit from 128 on is never folded onto an ASCII letter, so the class holds the
  ASCII letters of both cases, the digits and the underscore, and nothing else.
\<close>

definition isTagChar :: "jschar \<Rightarrow> bool" where
  "isTagChar c \<longleftrightarrow>
     (let n = unat c in
      (97 \<le> n \<and> n \<le> 122) \<or> (65 \<le> n \<and> n \<le> 90) \<or> (48 \<le> n \<and> n \<le> 57) \<or> n = 95)"

text \<open>
  The matches of \<^verbatim>\<open>/#[a-z0-9_]+/gi\<close> in a string, from left to right: at a \<^verbatim>\<open>#\<close> (code
  unit 35) followed by a character of the class the match takes the longest run of
  such characters, and the search goes on behind it; at any other position it moves on
  by one code unit.
\<close>

function matchAll :: "jsstring \<Rightarrow> jsstring list" where
  "matchAll [] = []"
| "matchAll (c # cs) =
     (if c = 35 \<and> takeWhile isTagChar cs \<noteq> []
      then (c # takeWhile isTagChar cs) # matchAll (dropWhile isTagChar cs)
      else matchAll cs)"
  by pat_completeness auto
termination
  by (relation "measure length") (auto simp: le_imp_less_Suc length_dropWhile_le)

text \<open>\<^verbatim>\<open>content.match(hashtagRegex)\<close> is \<^verbatim>\<open>null\<close> (\<open>None\<close>) when there is no match.\<close>

definition match_g :: "jsstring \<Rightarrow> jsstring list option" where
  "match_g s = (if matchAll s = [] then None else Some (matchAll s))"

text \<open>
  \<^verbatim>\<open>toLowerCase()\<close> is called on matches only, strings of \<^verbatim>\<open>#\<close> and characters of the
  class, where it changes the letters \<^verbatim>\<open>A\<close> to \<^verbatim>\<open>Z\<close> and nothing else.
\<close>

definition lowerChar :: "jschar \<Rightarrow> jschar" where
  "lowerChar c = (if 65 \<le> unat c \<and> unat c \<le> 90 then c + 32 else c)"

definition toLowerCase :: "jsstring \<Rightarrow> jsstring" where
  "toLowerCase s = map lowerChar s"

text \<open>
  A \<^verbatim>\<open>Map\<close> from strings to numbers keeps its keys in the order of their first
  insertion; \<^verbatim>\<open>set\<close> on a key that is present replaces the value in place.
\<close>

fun mapSet :: "(jsstring \<times> nat) list \<Rightarrow> jsstring \<Rightarrow> nat \<Rightarrow> (jsstring \<times> nat) list" where
  "mapSet [] k v = [(k, v)]"
| "mapSet ((k', v') # m) k v = (if k' = k then (k', v) # m else (k', v') # mapSet m k v)"

definition mapGet :: "(jsstring \<times> nat) list \<Rightarrow> jsstring \<Rightarrow> nat option" where
  "mapGet m k = map_of m k"

text \<open>\<^verbatim>\<open>counts.set(lowered, (counts.get(lowered) ?? 0) + 1)\<close>\<close>

definition increment :: "(jsstring \<times> nat) list \<Rightarrow> jsstring \<Rightarrow> (jsstring \<times> nat) list" where
  "increment counts lowered =
     mapSet counts lowered ((case mapGet counts lowered of None \<Rightarrow> 0 | Some n \<Rightarrow> n) + 1)"

definition countTag :: "(jsstring \<times> nat) list \<Rightarrow> jsstring \<Rightarrow> (jsstring \<times> nat) list" where
  "countTag counts tag = (let lowered = toLowerCase tag in increment counts lowered)"

definition countComment :: "(jsstring \<times> nat) list \<Rightarrow> Comment \<Rightarrow> (jsstring \<times> nat) list" where
  "countComment counts comment =
     (case match_g (content comment) of
        None \<Rightarrow> counts
      | Some matches \<Rightarrow> foldl countTag counts matches)"

text \<open>
  \<^verbatim>\<open>Array.prototype.sort\<close> with a comparator: the sort is stable, and for a comparator
  that orders consistently its result is the one stable arrangement, computed here by
  insertion from the right. An element goes in front of the first element that the
  comparator does not put before it.
\<close>

fun insertBy :: "('a \<Rightarrow> 'a \<Rightarrow> int) \<Rightarrow> 'a \<Rightarrow> 'a list \<Rightarrow> 'a list" where
  "insertBy cmp x [] = [x]"
| "insertBy cmp x (y # ys) = (if cmp x y \<le> 0 then x # y # ys else y # insertBy cmp x ys)"

definition sortBy :: "('a \<Rightarrow> 'a \<Rightarrow> int) \<Rightarrow> 'a list \<Rightarrow> 'a list" where
  "sortBy cmp xs = foldr (insertBy cmp) xs []"

text \<open>
  \<^verbatim>\<open>extractHashtags\<close>: count, sort by \<^verbatim>\<open>b[1] - a[1]\<close>, keep the first four. The last
  \<^verbatim>\<open>map\<close> of the source turns every entry \<^verbatim>\<open>[tag, count]\<close> into the object
  \<^verbatim>\<open>{tag, count}\<close>; the model keeps the pair.
\<close>

definition extractHashtags :: "Comment list \<Rightarrow> (jsstring \<times> nat) list" where
  "extractHashtags cs =
     (let counts = foldl countComment [] cs
      in take 4 (sortBy (\<lambda>a b. int (snd b) - int (snd a)) counts))"

text \<open>
  The specification's words, to compare with: all matches of all comments in scan
  order, lowercased; the distinct tokens in the order of their first occurrence, each
  with the number of its occurrences; a stable sort by falling count; the first
  \<open>limit\<close> entries.
\<close>

definition hashtagTokens :: "Comment list \<Rightarrow> jsstring list" where
  "hashtagTokens cs = concat (map (\<lambda>c. map toLowerCase (matchAll (content c))) cs)"

fun firstSeen :: "'a list \<Rightarrow> 'a list" where
  "firstSeen [] = []"
| "firstSeen (x # xs) = x # removeAll x (firstSeen xs)"

definition tally :: "jsstring list \<Rightarrow> (jsstring \<times> nat) list" where
  "tally tokens = map (\<lambda>t. (t, count_list tokens t)) (firstSeen tokens)"

definition extractTrendingTags_spec :: "Comment list \<Rightarrow> nat \<Rightarrow> (jsstring \<times> nat) list" where
  "extractTrendingTags_spec cs limit =
     take limit (sort_key (\<lambda>e. - int (snd e)) (tally (hashtagTokens cs)))"

text \<open>A string has a hashtag when a \<^verbatim>\<open>#\<close> in it is followed by a character of the class.\<close>

fun hasHashtag :: "jsstring \<Rightarrow> bool" where
  "hasHashtag (a # b # s) \<longleftrightarrow> (a = 35 \<and> isTagChar b) \<or> hasHashtag (b # s)"
| "hasHashtag _ \<longleftrightarrow> False"

text \<open>The form of a match, and of a match in lower case.\<close>

definition isTag :: "jsstring \<Rightarrow> bool" where
  "isTag m \<longleftrightarrow>
     (case m of [] \<Rightarrow> False | h # w \<Rightarrow> h = 35 \<and> w \<noteq> [] \<and> list_all isTagChar w)"

definition isLowerTagChar :: "jschar \<Rightarrow> bool" where
  "isLowerTagChar c \<longleftrightarrow>
     (let n = unat c in (97 \<le> n \<and> n \<le> 122) \<or> (48 \<le> n \<and> n \<le> 57) \<or> n = 95)"

definition isLowerTag :: "jsstring \<Rightarrow> bool" where
  "isLowerTag m \<longleftrightarrow>
     (case m of [] \<Rightarrow> False | h # w \<Rightarrow> h = 35 \<and> w \<noteq> [] \<and> list_all isLowerTagChar w)"

definition exampleComments :: "Comment list" where
  "exampleComments =
     map (\<lambda>t. \<lparr>id_c = str ''x'', displayName = str ''A'', username = str ''@a'',
               avatarColor = str ''bg-sky-500'', content = t, createdAt = 0, likes = 0,
               isLiked = Some False, replies = 0\<rparr>)
       [str ''Love #Design!'', str ''no tags here # or #-'', str ''more #design, and #UI'']"

definition exampleTies :: "Comment list" where
  "exampleTies =
     map (\<lambda>t. \<lparr>id_c = str ''x'', displayName = str ''A'', username = str ''@a'',
               avatarColor = str ''bg-sky-500'', content = t, createdAt = 0, likes = 0,
               isLiked = Some False, replies = 0\<rparr>)
       [str ''#b #a'', str ''#c #A #d'', str ''#e'']"

subsection \<open>An invariant of the like counters, and sample inputs\<close>


definition exampleDraft :: state where
  "exampleDraft =
     run [EditField DisplayName (str '' Jordan Walker''), EditField Username (str ''jor dy''),
          EditField Content (str '' Hello #world '')] (initialState 0)"

definition exampleBlank :: state where
  "exampleBlank =
     run [EditField DisplayName (str ''Jordan''), EditField Username (str ''jordy''),
          EditField Content (str ''   '')] (initialState 0)"



section \<open>Properties\<close>

subsection \<open>The cap on the content\<close>

lemma handleFieldChange_content:
  "form_content (formState (handleFieldChange Content v st)) = v"
  by (simp add: handleFieldChange_def setField_def)

text \<open>
  The calls of \<^verbatim>\<open>handleFieldChange\<close> in the component all come from the \<^verbatim>\<open>onChange\<close>
  handlers, so no event stores a longer content.
\<close>

lemma content_cap_step:
  assumes "length (form_content (formState st)) \<le> 280"
  shows "length (form_content (formState (step cmd st))) \<le> 280"
proof (cases cmd)
  case (EditField f v)
  with assms show ?thesis
    by (cases f)
      (simp_all add: onChange_def handleFieldChange_def setField_def slice0_def
        MAX_CHAR_COUNT_def)
next
  case (Submit newId now)
  with assms show ?thesis by (simp add: handleSubmit_def Let_def initialForm_def)
next
  case (ToggleLike cid)
  with assms show ?thesis by (simp add: toggleLike_def)
next
  case SubmitTimeout
  with assms show ?thesis by (simp add: submitTimeout_def)
qed

lemma content_cap_run:
  "length (form_content (formState st)) \<le> 280 \<Longrightarrow>
   length (form_content (formState (run cmds st))) \<le> 280"
  unfolding run_def
proof (induction cmds arbitrary: st)
  case Nil
  then show ?case by simp
next
  case (Cons cmd cmds)
  from Cons.prems have "length (form_content (formState (step cmd st))) \<le> 280"
    by (rule content_cap_step)
  then show ?case using Cons.IH by simp
qed

text \<open>
  C1. Whatever is typed into the content field, the content stored by the edit has at
  most 280 code units: it is the first 280 code units of the input. The cut is made at
  edit time, by the \<^verbatim>\<open>onChange\<close> handler of the textarea, on the value it hands to
  \<^verbatim>\<open>handleFieldChange\<close>. Hence the draft read after any sequence of events holds a
  content of at most 280 code units.
\<close>

theorem onChange_content_capped:
  "length (form_content (formState (onChange Content s st))) \<le> 280
   \<and> form_content (formState (onChange Content s st)) = take 280 s
   \<and> length (form_content (formState (run cmds (initialState t0)))) \<le> 280"
proof -
  have "length (form_content (formState (initialState t0))) \<le> 280"
    by (simp add: initialState_def initialForm_def)
  then have "length (form_content (formState (run cmds (initialState t0)))) \<le> 280"
    by (rule content_cap_run)
  then show ?thesis
    by (simp add: onChange_def handleFieldChange_content slice0_def MAX_CHAR_COUNT_def)
qed

theorem onChange_content_capped_witness:
  "length (form_content (formState (onChange Content (replicate 300 65) (initialState 0))))
     = 280"
  using onChange_content_capped [of "replicate 300 65" "initialState 0"] by simp

subsection \<open>Submitting\<close>

text \<open>
  C3. When the three fields of the draft are non-empty after trimming, a submit puts
  exactly one new comment in front of the old ones. Its handle is the draft's handle,
  with \<^verbatim>\<open>@\<close> put in front unless it is there already, so it starts with \<^verbatim>\<open>@\<close>; its name
  and content are the trimmed draft values; it has no likes, is not liked and has no
  replies; and the draft is empty again.
\<close>

theorem handleSubmit_valid:
  assumes "trim (form_displayName (formState st)) \<noteq> []"
    and "trim (form_username (formState st)) \<noteq> []"
    and "trim (form_content (formState st)) \<noteq> []"
  shows "comments (handleSubmit newId now st)
           = hd (comments (handleSubmit newId now st)) # comments st
    \<and> length (comments (handleSubmit newId now st)) = length (comments st) + 1
    \<and> username (hd (comments (handleSubmit newId now st))) =
        (if startsWith (form_username (formState st)) (str ''@'')
         then form_username (formState st)
         else str ''@'' @ form_username (formState st))
    \<and> startsWith (username (hd (comments (handleSubmit newId now st)))) (str ''@'')
    \<and> displayName (hd (comments (handleSubmit newId now st)))
        = trim (form_displayName (formState st))
    \<and> content (hd (comments (handleSubmit newId now st)))
        = trim (form_content (formState st))
    \<and> likes (hd (comments (handleSubmit newId now st))) = 0
    \<and> isLiked (hd (comments (handleSubmit newId now st))) = Some False
    \<and> replies (hd (comments (handleSubmit newId now st))) = 0
    \<and> formState (handleSubmit newId now st) =
        \<lparr>form_displayName = [], form_username = [], form_content = []\<rparr>"
  using assms
  by (simp add: handleSubmit_def Let_def startsWith_def str_def initialForm_def)

lemma exampleDraft_form:
  "formState exampleDraft =
     \<lparr>form_displayName = str '' Jordan Walker'', form_username = str ''jordy'',
      form_content = str '' Hello #world ''\<rparr>"
  "comments exampleDraft = seedComments 0"
  by (simp_all add: exampleDraft_def run_def initialState_def onChange_def
      handleFieldChange_def setField_def slice0_def MAX_CHAR_COUNT_def removeSpaces_def
      isSpace_def initialForm_def str_def)

theorem handleSubmit_valid_witness:
  "trim (form_displayName (formState exampleDraft)) \<noteq> []
   \<and> trim (form_username (formState exampleDraft)) \<noteq> []
   \<and> trim (form_content (formState exampleDraft)) \<noteq> []
   \<and> comments (handleSubmit (str ''n1'') 1000 exampleDraft)
        = hd (comments (handleSubmit (str ''n1'') 1000 exampleDraft)) # seedComments 0
   \<and> username (hd (comments (handleSubmit (str ''n1'') 1000 exampleDraft))) = str ''@jordy''
   \<and> displayName (hd (comments (handleSubmit (str ''n1'') 1000 exampleDraft)))
        = str ''Jordan Walker''
   \<and> content (hd (comments (handleSubmit (str ''n1'') 1000 exampleDraft)))
        = str ''Hello #world''
   \<and> likes (hd (comments (handleSubmit (str ''n1'') 1000 exampleDraft))) = 0"
proof -
  have h1: "trim (form_displayName (formState exampleDraft)) \<noteq> []"
    and h2: "trim (form_username (formState exampleDraft)) \<noteq> []"
    and h3: "trim (form_content (formState exampleDraft)) \<noteq> []"
    by (simp_all add: exampleDraft_form trim_def isSpace_def str_def)
  have t: "trim (str '' Jordan Walker'') = str ''Jordan Walker''"
    "trim (str '' Hello #world '') = str ''Hello #world''"
    "\<not> startsWith (str ''jordy'') (str ''@'')"
    by (simp_all add: trim_def isSpace_def startsWith_def str_def)
  show ?thesis
    using handleSubmit_valid [OF h1 h2 h3, of "str ''n1''" 1000] h1 h2 h3 t
    by (simp add: exampleDraft_form) (simp add: str_def)
qed

text \<open>
  C4. When the name, the handle or the content of the draft is empty after trimming, a
  submit returns the state it was given: the comments, the draft and the flag are the
  same, and nothing is raised.
\<close>

theorem handleSubmit_invalid:
  assumes "trim (form_displayName (formState st)) = []
         \<or> trim (form_username (formState st)) = []
         \<or> trim (form_content (formState st)) = []"
  shows "handleSubmit newId now st = st
       \<and> comments (handleSubmit newId now st) = comments st"
  using assms by (auto simp: handleSubmit_def Let_def)

lemma exampleBlank_form:
  "form_content (formState exampleBlank) = str ''   ''"
  by (simp add: exampleBlank_def run_def initialState_def onChange_def
      handleFieldChange_def setField_def slice0_def MAX_CHAR_COUNT_def removeSpaces_def
      isSpace_def initialForm_def str_def)

theorem handleSubmit_invalid_witness:
  "trim (form_content (formState exampleBlank)) = []
   \<and> handleSubmit (str ''n1'') 1000 exampleBlank = exampleBlank
   \<and> comments (handleSubmit (str ''n1'') 1000 exampleBlank) = comments exampleBlank"
proof -
  have h: "trim (form_content (formState exampleBlank)) = []"
    by (simp add: exampleBlank_form trim_def isSpace_def str_def)
  then show ?thesis
    using handleSubmit_invalid [of exampleBlank "str ''n1''" 1000] by simp
qed

subsection \<open>Liking\<close>

lemma toggleComment_twice_likes: "likes (toggleComment cid (toggleComment cid c)) = likes c"
  by (simp add: toggleComment_def Let_def truthy_def)

lemma toggleComment_twice_truthy:
  "truthy (isLiked (toggleComment cid (toggleComment cid c))) = truthy (isLiked c)"
  by (simp add: toggleComment_def Let_def truthy_def)

lemma toggleComment_twice:
  "id_c c = cid \<longrightarrow> isLiked c \<noteq> None \<Longrightarrow> toggleComment cid (toggleComment cid c) = c"
  by (auto simp: toggleComment_def Let_def truthy_def)

lemma toggleComment_other: "id_c c \<noteq> cid \<Longrightarrow> toggleComment cid c = c"
  by (simp add: toggleComment_def)

lemma seed_ids: "map id_c (seedComments t0) = [str ''c1'', str ''c2'', str ''c3'']"
  by (simp add: seedComments_def)

text \<open>
  C6. Two toggles of the same id in a row give every comment of the list, the toggled
  one included, the like count it had and the liked state it had (read by truthiness,
  as the component reads it). When the field \<^verbatim>\<open>isLiked\<close> of the toggled comments was set,
  as it is in every comment the component builds, the whole state is the one before.
\<close>

theorem toggleLike_twice:
  "length (comments (toggleLike cid (toggleLike cid st))) = length (comments st)
   \<and> (\<forall>i < length (comments st).
        likes (comments (toggleLike cid (toggleLike cid st)) ! i) = likes (comments st ! i)
      \<and> truthy (isLiked (comments (toggleLike cid (toggleLike cid st)) ! i))
          = truthy (isLiked (comments st ! i)))
   \<and> ((\<forall>c \<in> set (comments st). id_c c = cid \<longrightarrow> isLiked c \<noteq> None)
        \<longrightarrow> toggleLike cid (toggleLike cid st) = st)"
proof -
  have "map (toggleComment cid \<circ> toggleComment cid) (comments st) = comments st"
    if "\<forall>c \<in> set (comments st). id_c c = cid \<longrightarrow> isLiked c \<noteq> None"
    using that by (intro map_idI) (simp add: toggleComment_twice)
  then show ?thesis
    by (simp add: toggleLike_def toggleComment_twice_likes toggleComment_twice_truthy)
qed

theorem toggleLike_twice_witness:
  "(0::nat) < length (comments (initialState 0))
   \<and> id_c (comments (initialState 0) ! 0) = str ''c1''
   \<and> likes (comments (toggleLike (str ''c1'') (initialState 0)) ! 0) = 25
   \<and> likes (comments (toggleLike (str ''c1'') (toggleLike (str ''c1'') (initialState 0))) ! 0)
        = likes (comments (initialState 0) ! 0)
   \<and> truthy (isLiked (comments (toggleLike (str ''c1'')
        (toggleLike (str ''c1'') (initialState 0))) ! 0))
        = truthy (isLiked (comments (initialState 0) ! 0))
   \<and> map isLiked (comments (initialState 0)) = [Some False, Some False, Some False]
   \<and> toggleLike (str ''c1'') (toggleLike (str ''c1'') (initialState 0)) = initialState 0"
proof -
  have l: "(0::nat) < length (comments (initialState 0))"
    and i: "id_c (comments (initialState 0) ! 0) = str ''c1''"
    by (simp_all add: initialState_def seedComments_def)
  have d: "\<forall>c \<in> set (comments (initialState 0)). id_c c = str ''c1'' \<longrightarrow> isLiked c \<noteq> None"
    by (auto simp: initialState_def seedComments_def)
  have o: "likes (comments (toggleLike (str ''c1'') (initialState 0)) ! 0) = 25"
    by (simp add: initialState_def seedComments_def toggleLike_def toggleComment_def truthy_def)
  have m: "map isLiked (comments (initialState 0)) = [Some False, Some False, Some False]"
    by (simp add: initialState_def seedComments_def)
  show ?thesis
    using toggleLike_twice [of "str ''c1''" "initialState 0"] l i d o m by blast
qed

text \<open>
  C9. A toggle with an id that no comment of the list has returns the state it was
  given: the same comments with the same fields, in the same order. Nothing is raised.
\<close>

theorem toggleLike_unknown_id:
  assumes "\<forall>c \<in> set (comments st). id_c c \<noteq> commentId"
  shows "toggleLike commentId st = st \<and> comments (toggleLike commentId st) = comments st"
proof -
  have "map (toggleComment commentId) (comments st) = comments st"
    using assms by (intro map_idI) (simp add: toggleComment_other)
  then show ?thesis by (simp add: toggleLike_def)
qed

theorem toggleLike_unknown_id_witness:
  "list_all (\<lambda>c. id_c c \<noteq> str ''c9'') (comments (initialState 0))
   \<and> toggleLike (str ''c9'') (initialState 0) = initialState 0
   \<and> comments (toggleLike (str ''c9'') (initialState 0)) = comments (initialState 0)"
proof -
  have h: "\<forall>c \<in> set (comments (initialState 0)). id_c c \<noteq> str ''c9''"
    by (simp add: initialState_def seedComments_def str_def)
  then show ?thesis
    using toggleLike_unknown_id [of "initialState 0" "str ''c9''"] by (simp add: list_all_iff)
qed

text \<open>
  C10. A toggle keeps the length and the order of the list. At every position the
  comment after the toggle is the comment before it with, at most, other values of
  \<^verbatim>\<open>likes\<close> and \<^verbatim>\<open>isLiked\<close>: id, name, handle, avatar colour, content, creation time and
  reply count are the same, and a comment with another id is the same comment. The draft
  and the submitting flag are the same.
\<close>

theorem toggleLike_frame:
  "length (comments (toggleLike cid st)) = length (comments st)
   \<and> (\<forall>i < length (comments st).
        comments (toggleLike cid st) ! i =
          (comments st ! i)\<lparr>likes := likes (comments (toggleLike cid st) ! i),
                             isLiked := isLiked (comments (toggleLike cid st) ! i)\<rparr>
      \<and> id_c (comments (toggleLike cid st) ! i) = id_c (comments st ! i)
      \<and> displayName (comments (toggleLike cid st) ! i) = displayName (comments st ! i)
      \<and> username (comments (toggleLike cid st) ! i) = username (comments st ! i)
      \<and> avatarColor (comments (toggleLike cid st) ! i) = avatarColor (comments st ! i)
      \<and> content (comments (toggleLike cid st) ! i) = content (comments st ! i)
      \<and> createdAt (comments (toggleLike cid st) ! i) = createdAt (comments st ! i)
      \<and> replies (comments (toggleLike cid st) ! i) = replies (comments st ! i)
      \<and> (id_c (comments st ! i) \<noteq> cid
           \<longrightarrow> comments (toggleLike cid st) ! i = comments st ! i))
   \<and> formState (toggleLike cid st) = formState st
   \<and> isSubmitting (toggleLike cid st) = isSubmitting st"
  by (simp add: toggleLike_def toggleComment_def Let_def)

theorem toggleLike_frame_witness:
  "(1::nat) < length (comments (initialState 0))
   \<and> id_c (comments (initialState 0) ! 1) \<noteq> str ''c1''
   \<and> comments (toggleLike (str ''c1'') (initialState 0)) ! 1 = comments (initialState 0) ! 1
   \<and> content (comments (toggleLike (str ''c1'') (initialState 0)) ! 0)
        = content (comments (initialState 0) ! 0)
   \<and> replies (comments (toggleLike (str ''c1'') (initialState 0)) ! 0) = 5
   \<and> likes (comments (toggleLike (str ''c1'') (initialState 0)) ! 0) = 25
   \<and> formState (toggleLike (str ''c1'') (initialState 0)) = formState (initialState 0)"
proof -
  have l: "(1::nat) < length (comments (initialState 0))"
    "(0::nat) < length (comments (initialState 0))"
    and i: "id_c (comments (initialState 0) ! 1) \<noteq> str ''c1''"
    and r: "replies (comments (initialState 0) ! 0) = 5"
    by (simp_all add: initialState_def seedComments_def str_def)
  have o: "likes (comments (toggleLike (str ''c1'') (initialState 0)) ! 0) = 25"
    by (simp add: initialState_def seedComments_def toggleLike_def toggleComment_def truthy_def)
  show ?thesis
    using toggleLike_frame [of "str ''c1''" "initialState 0"] l i r o by metis
qed

subsection \<open>The like counter never goes below zero\<close>











subsection \<open>The interaction count\<close>

lemma foldl_interactions:
  "foldl (\<lambda>total comment. total + likes comment + replies comment) a cs
     = a + (\<Sum>c\<leftarrow>cs. likes c + replies c)"
  by (induction cs arbitrary: a) simp_all

text \<open>
  C8. The interaction count is the sum of likes and replies over all comments. The seeds
  have the likes 24, 12, 31 and the replies 5, 2, 9, so the count starts at 83; after a
  toggle of the first seed it is 84, and after a second toggle of it 83 again.
\<close>

theorem interactionsToday_total:
  "interactionsToday st = (\<Sum>c\<leftarrow>comments st. likes c + replies c)
   \<and> map likes (seedComments t0) = [24, 12, 31]
   \<and> map replies (seedComments t0) = [5, 2, 9]
   \<and> interactionsToday (initialState t0) = 83
   \<and> interactionsToday (toggleLike (id_c (hd (seedComments t0))) (initialState t0)) = 84
   \<and> interactionsToday (toggleLike (id_c (hd (seedComments t0)))
        (toggleLike (id_c (hd (seedComments t0))) (initialState t0))) = 83"
proof -
  have "interactionsToday st = (\<Sum>c\<leftarrow>comments st. likes c + replies c)"
    by (simp add: interactionsToday_def foldl_interactions)
  moreover have "interactionsToday (initialState t0) = 83"
    by (simp add: interactionsToday_def initialState_def seedComments_def)
  moreover have
    "interactionsToday (toggleLike (id_c (hd (seedComments t0))) (initialState t0)) = 84"
    by (simp add: interactionsToday_def initialState_def seedComments_def toggleLike_def
        toggleComment_def truthy_def str_def)
  moreover have "interactionsToday (toggleLike (id_c (hd (seedComments t0)))
        (toggleLike (id_c (hd (seedComments t0))) (initialState t0))) = 83"
    by (simp add: interactionsToday_def initialState_def seedComments_def toggleLike_def
        toggleComment_def truthy_def str_def)
  moreover have "map likes (seedComments t0) = [24, 12, 31]"
    "map replies (seedComments t0) = [5, 2, 9]"
    by (simp_all add: seedComments_def)
  ultimately show ?thesis by simp
qed

theorem interactionsToday_total_witness:
  "interactionsToday (initialState 0) = 83
   \<and> interactionsToday (toggleLike (id_c (hd (seedComments 0))) (initialState 0)) = 84
   \<and> interactionsToday (toggleLike (id_c (hd (seedComments 0)))
        (toggleLike (id_c (hd (seedComments 0))) (initialState 0))) = 83"
  using interactionsToday_total [of "initialState 0" 0] by simp

subsection \<open>Relative time\<close>

lemma int_div_less_iff:
  fixes x c n :: int
  assumes "0 < c"
  shows "x div c < n \<longleftrightarrow> x < n * c"
proof
  assume "x div c < n"
  then have "x div c + 1 \<le> n" by simp
  then have "(x div c + 1) * c \<le> n * c" using assms by (simp add: mult_right_mono)
  then have "x div c * c + c \<le> n * c" by (simp add: distrib_right)
  moreover have "x div c * c + x mod c = x" by (rule div_mult_mod_eq)
  moreover have "x mod c < c" using assms by simp
  ultimately show "x < n * c" by linarith
next
  assume lt: "x < n * c"
  show "x div c < n"
  proof (rule ccontr)
    assume "\<not> x div c < n"
    then have "n \<le> x div c" by simp
    then have "n * c \<le> x div c * c" using assms by (simp add: mult_right_mono)
    moreover have "x div c * c + x mod c = x" by (rule div_mult_mod_eq)
    moreover have "0 \<le> x mod c" using assms by simp
    ultimately show False using lt by linarith
  qed
qed

text \<open>
  The thresholds of the code, in elapsed milliseconds: the month labels stop at 360
  days (twelve months of 30 days), the year count divides by 365.
\<close>

lemma relativeTimeFromNow_thresholds:
  "relativeTimeFromNow now t =
     (let x = now - t in
      if x < 60000 then str ''just now''
      else if x < 60 * 60000 then numberToString (x div 60000) @ str ''m''
      else if x < 24 * 3600000 then numberToString (x div 3600000) @ str ''h''
      else if x < 7 * 86400000 then numberToString (x div 86400000) @ str ''d''
      else if x < 35 * 86400000 then numberToString (x div 86400000 div 7) @ str ''w''
      else if x < 360 * 86400000 then numberToString (x div 86400000 div 30) @ str ''mo''
      else numberToString (x div 86400000 div 365) @ str ''y'')"
proof -
  define x where "x = now - t"
  have d: "x div 60000 div 60 = x div 3600000" "x div 3600000 div 24 = x div 86400000"
    by (simp_all add: div_mult2_eq [symmetric])
  have c1: "x div 60000 < 60 \<longleftrightarrow> x < 60 * 60000" by (simp add: int_div_less_iff)
  have c2: "x div 3600000 < 24 \<longleftrightarrow> x < 24 * 3600000" by (simp add: int_div_less_iff)
  have c3: "x div 86400000 < 7 \<longleftrightarrow> x < 7 * 86400000" by (simp add: int_div_less_iff)
  have c4: "x div 86400000 div 7 < 5 \<longleftrightarrow> x < 35 * 86400000"
    by (simp add: int_div_less_iff)
  have c5: "x div 86400000 div 30 < 12 \<longleftrightarrow> x < 360 * 86400000"
    by (simp add: int_div_less_iff)
  show ?thesis
    unfolding relativeTimeFromNow_def Let_def x_def [symmetric] d c1 c2 c3 c4 c5 ..
qed

text \<open>Outside the five days from 360 to 364 the code gives the label of the specification.\<close>

lemma relativeTimeFromNow_agrees:
  assumes "now - t < 360 * 86400000 \<or> 365 * 86400000 \<le> now - t"
  shows "relativeTimeFromNow now t = relativeLabel_spec (now - t)"
  unfolding relativeTimeFromNow_thresholds relativeLabel_spec_def Let_def
  using assms by auto

lemma relativeTimeFromNow_examples:
  "relativeTimeFromNow (t + 59 * 1000) t = str ''just now''"
  "relativeTimeFromNow (t + 60 * 1000) t = str ''1m''"
  "relativeTimeFromNow (t + 90 * 60 * 1000) t = str ''1h''"
  "relativeTimeFromNow (t + 8 * 24 * 60 * 60 * 1000) t = str ''1w''"
  "relativeTimeFromNow (t + 359 * 86400000) t = str ''11mo''"
  "relativeTimeFromNow (t + 365 * 86400000) t = str ''1y''"
  by (simp_all add: relativeTimeFromNow_def Let_def numberToString_def digits.simps
      digit_def str_def)

text \<open>
  C2. The specification gives the month label for every elapsed time from 35 up to 365
  days, so \<^verbatim>\<open>12mo\<close> at 360 days. The code leaves the month branch when the month count
  reaches 12, at 360 days, and divides the days by 365 for the years: at 360 days it
  returns \<^verbatim>\<open>0y\<close>.
\<close>

theorem relativeTimeFromNow_360_days:
  "relativeTimeFromNow (t + 360 * 86400000) t = str ''0y''
   \<and> relativeLabel_spec (360 * 86400000) = str ''12mo''
   \<and> str ''0y'' \<noteq> str ''12mo''"
  by (simp add: relativeTimeFromNow_def relativeLabel_spec_def Let_def numberToString_def
      digits.simps digit_def str_def)

subsection \<open>Trending hashtags\<close>

lemma insertBy_insort_key:
  "insertBy (\<lambda>a b. int (snd b) - int (snd a)) x ys = insort_key (\<lambda>e. - int (snd e)) x ys"
  by (induction ys) simp_all

lemma sortBy_sort_key:
  "sortBy (\<lambda>a b. int (snd b) - int (snd a)) xs = sort_key (\<lambda>e. - int (snd e)) xs"
  by (induction xs) (simp_all add: sortBy_def sort_key_def insertBy_insort_key)

lemma firstSeen_set [simp]: "set (firstSeen xs) = set xs"
  by (induction xs) auto

lemma firstSeen_distinct [simp]: "distinct (firstSeen xs)"
  by (induction xs) (auto simp: distinct_removeAll)

lemma firstSeen_snoc:
  "firstSeen (xs @ [x]) = (if x \<in> set xs then firstSeen xs else firstSeen xs @ [x])"
  by (induction xs) auto

lemma mapSet_new: "k \<notin> fst ` set m \<Longrightarrow> mapSet m k v = m @ [(k, v)]"
  by (induction m) auto

lemma mapSet_entries:
  "distinct ts \<Longrightarrow> k \<in> set ts \<Longrightarrow>
   mapSet (map (\<lambda>t. (t, g t)) ts) k v = map (\<lambda>t. (t, if t = k then v else g t)) ts"
proof (induction ts)
  case Nil
  then show ?case by simp
next
  case (Cons t ts)
  show ?case
  proof (cases "t = k")
    case True
    with Cons.prems have "k \<notin> set ts" by simp
    then have "map (\<lambda>t. (t, g t)) ts = map (\<lambda>t. (t, if t = k then v else g t)) ts"
      by (intro map_cong) auto
    with True show ?thesis by simp
  next
    case False
    with Cons show ?thesis by simp
  qed
qed

lemma map_of_entries:
  "map_of (map (\<lambda>t. (t, g t)) ts) k = (if k \<in> set ts then Some (g k) else None)"
  by (induction ts) auto

lemma increment_tally: "increment (tally ls) x = tally (ls @ [x])"
proof (cases "x \<in> set ls")
  case True
  have "increment (tally ls) x = mapSet (tally ls) x (count_list ls x + 1)"
    using True by (simp add: increment_def mapGet_def tally_def map_of_entries)
  also have "\<dots> = map (\<lambda>t. (t, if t = x then count_list ls x + 1 else count_list ls t)) (firstSeen ls)"
    using True unfolding tally_def by (intro mapSet_entries) simp_all
  also have "\<dots> = tally (ls @ [x])"
    using True by (auto simp: tally_def firstSeen_snoc)
  finally show ?thesis .
next
  case False
  then have "increment (tally ls) x = tally ls @ [(x, 1)]"
    by (simp add: increment_def mapGet_def tally_def map_of_entries mapSet_new image_image)
  also have "\<dots> = tally (ls @ [x])"
    using False by (auto simp: tally_def firstSeen_snoc)
  finally show ?thesis .
qed

lemma foldl_increment_tally: "foldl increment [] ls = tally ls"
proof (induction ls rule: rev_induct)
  case Nil
  show ?case by (simp add: tally_def)
next
  case (snoc x ls)
  then show ?case by (simp add: increment_tally)
qed

lemma countTag_increment: "countTag counts tag = increment counts (toLowerCase tag)"
  by (simp add: countTag_def Let_def)

lemma countComment_foldl:
  "countComment counts c = foldl increment counts (map toLowerCase (matchAll (content c)))"
proof -
  have "(\<lambda>a x. increment a (toLowerCase x)) = countTag"
    by (intro ext) (simp add: countTag_increment)
  then show ?thesis by (simp add: countComment_def match_g_def foldl_map)
qed

lemma foldl_countComment:
  "foldl countComment acc cs =
     foldl increment acc (concat (map (\<lambda>c. map toLowerCase (matchAll (content c))) cs))"
  by (induction cs arbitrary: acc) (simp_all add: countComment_foldl)

lemma extractHashtags_tally:
  "extractHashtags cs = take 4 (sort_key (\<lambda>e. - int (snd e)) (tally (hashtagTokens cs)))"
  by (simp add: extractHashtags_def Let_def sortBy_sort_key foldl_countComment hashtagTokens_def
      foldl_increment_tally)

lemma matchAll_isTag: "m \<in> set (matchAll s) \<Longrightarrow> isTag m"
proof (induction s arbitrary: m rule: matchAll.induct)
  case 1
  then show ?case by simp
next
  case (2 c cs)
  show ?case
  proof (cases "c = 35 \<and> takeWhile isTagChar cs \<noteq> []")
    case True
    with "2.prems" have "m = c # takeWhile isTagChar cs \<or> m \<in> set (matchAll (dropWhile isTagChar cs))"
      by simp
    then show ?thesis
    proof
      assume "m = c # takeWhile isTagChar cs"
      with True show ?thesis
        by (auto simp: isTag_def list_all_iff dest: set_takeWhileD)
    next
      assume "m \<in> set (matchAll (dropWhile isTagChar cs))"
      with True "2.IH"(1) show ?thesis by simp
    qed
  next
    case False
    with "2.prems" have "m \<in> set (matchAll cs)" by auto
    with False "2.IH"(2) show ?thesis by simp
  qed
qed

lemma isTagChar_lower: "isTagChar c \<Longrightarrow> isLowerTagChar (lowerChar c)"
proof (cases "65 \<le> unat c \<and> unat c \<le> 90")
  case True
  then have "unat (c + 32) = unat c + 32"
    by (simp add: unat_word_ariths)
  with True show ?thesis by (simp add: isLowerTagChar_def lowerChar_def)
next
  case False
  assume "isTagChar c"
  with False show ?thesis by (auto simp: isTagChar_def isLowerTagChar_def lowerChar_def Let_def)
qed

lemma lowerChar_hash: "lowerChar 35 = 35"
  by (simp add: lowerChar_def)

lemma isTag_toLowerCase: "isTag m \<Longrightarrow> isLowerTag (toLowerCase m)"
  by (cases m)
    (auto simp: isTag_def isLowerTag_def toLowerCase_def list_all_iff isTagChar_lower
      lowerChar_hash)

lemma matchAll_Nil_iff: "matchAll s = [] \<longleftrightarrow> \<not> hasHashtag s"
proof (induction s rule: matchAll.induct)
  case 1
  show ?case by simp
next
  case (2 c cs)
  show ?case
  proof (cases cs)
    case Nil
    then show ?thesis by simp
  next
    case (Cons b s')
    show ?thesis
    proof (cases "c = 35 \<and> isTagChar b")
      case True
      with Cons show ?thesis by simp
    next
      case False
      with Cons have "\<not> (c = 35 \<and> takeWhile isTagChar cs \<noteq> [])" by auto
      with "2.IH"(2) have "matchAll cs = [] \<longleftrightarrow> \<not> hasHashtag cs" by simp
      with False Cons show ?thesis by auto
    qed
  qed
qed

lemma extractHashtags_spec: "extractHashtags cs = extractTrendingTags_spec cs 4"
  by (simp add: extractHashtags_tally extractTrendingTags_spec_def)

lemma spec_sorted: "sorted_wrt (\<lambda>a b. snd b \<le> snd a) (extractTrendingTags_spec cs n)"
proof -
  have "sorted (map (\<lambda>e. - int (snd e)) (sort_key (\<lambda>e. - int (snd e)) (tally (hashtagTokens cs))))"
    by (rule sorted_sort_key)
  then have "sorted_wrt (\<lambda>a b. snd b \<le> snd a) (sort_key (\<lambda>e. - int (snd e)) (tally (hashtagTokens cs)))"
    by (simp add: sorted_map)
  then show ?thesis unfolding extractTrendingTags_spec_def by (rule sorted_wrt_take)
qed

lemma hashtagTokens_lower: "t \<in> set (hashtagTokens cs) \<Longrightarrow> isLowerTag t"
  by (auto simp: hashtagTokens_def dest!: matchAll_isTag intro: isTag_toLowerCase)

lemma spec_entries:
  assumes "e \<in> set (extractTrendingTags_spec cs n)"
  shows "isLowerTag (fst e) \<and> 0 < snd e \<and> snd e = count_list (hashtagTokens cs) (fst e)"
proof -
  from assms have "e \<in> set (tally (hashtagTokens cs))"
    unfolding extractTrendingTags_spec_def by (auto dest: in_set_takeD)
  then obtain t where t: "t \<in> set (hashtagTokens cs)" "e = (t, count_list (hashtagTokens cs) t)"
    by (auto simp: tally_def)
  from t(1) have "count_list (hashtagTokens cs) t \<noteq> 0" by (simp add: count_list_0_iff)
  with t show ?thesis by (simp add: hashtagTokens_lower)
qed

lemma spec_ties:
  "prefix (filter (\<lambda>e. snd e = k) (extractTrendingTags_spec cs n))
          (filter (\<lambda>e. snd e = k) (tally (hashtagTokens cs)))"
proof -
  let ?f = "\<lambda>e :: jsstring \<times> nat. - int (snd e)"
  have eq: "(\<lambda>e :: jsstring \<times> nat. snd e = k) = (\<lambda>e. ?f e = - int k)" by auto
  have "prefix (filter (\<lambda>e. snd e = k) (take n (sort_key ?f (tally (hashtagTokens cs)))))
               (filter (\<lambda>e. snd e = k) (sort_key ?f (tally (hashtagTokens cs))))"
    by (intro filter_mono_prefix take_is_prefix)
  also have "filter (\<lambda>e. snd e = k) (sort_key ?f (tally (hashtagTokens cs)))
           = filter (\<lambda>e. snd e = k) (tally (hashtagTokens cs))"
    unfolding eq by (rule sort_key_stable)
  finally show ?thesis by (simp add: extractTrendingTags_spec_def)
qed

lemma hashtagTokens_Nil_iff:
  "hashtagTokens cs = [] \<longleftrightarrow> (\<forall>c \<in> set cs. \<not> hasHashtag (content c))"
  by (simp add: hashtagTokens_def matchAll_Nil_iff)

lemma tally_Nil_iff: "tally ts = [] \<longleftrightarrow> ts = []"
proof -
  have "firstSeen ts = [] \<longleftrightarrow> ts = []" by (cases ts) simp_all
  then show ?thesis by (simp add: tally_def)
qed

lemma sort_key_Nil_iff: "sort_key f xs = [] \<longleftrightarrow> xs = []"
  by (metis length_0_conv length_sort)

lemma spec_Nil_iff:
  "extractTrendingTags_spec cs 4 = [] \<longleftrightarrow> (\<forall>c \<in> set cs. \<not> hasHashtag (content c))"
  by (simp add: extractTrendingTags_spec_def sort_key_Nil_iff tally_Nil_iff hashtagTokens_Nil_iff)

lemma hashtagTokens_matches:
  "hashtagTokens cs = map toLowerCase (concat (map (\<lambda>c. matchAll (content c)) cs))"
  by (simp add: hashtagTokens_def map_concat comp_def)

lemma spec_example:
  assumes "concat (map (\<lambda>c. matchAll (content c)) cs) = [str ''#Design'', str ''#design'', str ''#UI'']"
  shows "extractTrendingTags_spec cs 4 = [(str ''#design'', 2), (str ''#ui'', 1)]"
proof -
  have "hashtagTokens cs = [str ''#design'', str ''#design'', str ''#ui'']"
    unfolding hashtagTokens_matches assms
    by (simp add: toLowerCase_def lowerChar_def str_def)
  then show ?thesis
    by (simp add: extractTrendingTags_spec_def tally_def str_def)
qed

text \<open>
  C5. \<^verbatim>\<open>extractHashtags\<close> is the specification's function with the limit 4: the
  lowercased matches of all comments are counted, every occurrence once, the entries
  stand in the order of first encounter, are sorted stably by falling count and cut
  after the fourth. So the result has at most four entries with falling counts; every
  entry is a \<^verbatim>\<open>#\<close> followed by one or more lower-case ASCII letters, digits or
  underscores, with the number of occurrences of that token among all matches; entries
  with equal counts keep the order of first encounter; every match is a \<^verbatim>\<open>#\<close> followed
  by one or more ASCII letters of either case, digits or underscores; the result is
  empty exactly when no comment has a hashtag; and when the scan meets \<^verbatim>\<open>#Design\<close>,
  \<^verbatim>\<open>#design\<close> and \<^verbatim>\<open>#UI\<close>, in this order and nothing else, the result is
  \<^verbatim>\<open>#design\<close> with 2 and \<^verbatim>\<open>#ui\<close> with 1.
\<close>

theorem extractHashtags_trending:
  "extractHashtags cs = extractTrendingTags_spec cs 4
   \<and> length (extractHashtags cs) \<le> 4
   \<and> sorted_wrt (\<lambda>a b. snd b \<le> snd a) (extractHashtags cs)
   \<and> (\<forall>e \<in> set (extractHashtags cs).
        isLowerTag (fst e) \<and> 0 < snd e \<and> snd e = count_list (hashtagTokens cs) (fst e))
   \<and> (\<forall>k. prefix (filter (\<lambda>e. snd e = k) (extractHashtags cs))
                  (filter (\<lambda>e. snd e = k) (tally (hashtagTokens cs))))
   \<and> (\<forall>c \<in> set cs. \<forall>m \<in> set (matchAll (content c)). isTag m)
   \<and> (extractHashtags cs = [] \<longleftrightarrow> (\<forall>c \<in> set cs. \<not> hasHashtag (content c)))
   \<and> (concat (map (\<lambda>c. matchAll (content c)) cs) = [str ''#Design'', str ''#design'', str ''#UI'']
        \<longrightarrow> extractHashtags cs = [(str ''#design'', 2), (str ''#ui'', 1)])"
proof -
  have c1: "extractHashtags cs = extractTrendingTags_spec cs 4"
    by (rule extractHashtags_spec)
  have c2: "length (extractHashtags cs) \<le> 4"
    by (simp add: c1 extractTrendingTags_spec_def)
  have c3: "sorted_wrt (\<lambda>a b. snd b \<le> snd a) (extractHashtags cs)"
    unfolding c1 by (rule spec_sorted)
  have c4: "\<forall>e \<in> set (extractHashtags cs).
        isLowerTag (fst e) \<and> 0 < snd e \<and> snd e = count_list (hashtagTokens cs) (fst e)"
    unfolding c1 using spec_entries by blast
  have c5: "\<forall>k. prefix (filter (\<lambda>e. snd e = k) (extractHashtags cs))
                  (filter (\<lambda>e. snd e = k) (tally (hashtagTokens cs)))"
    unfolding c1 using spec_ties by blast
  have c6: "\<forall>c \<in> set cs. \<forall>m \<in> set (matchAll (content c)). isTag m"
    by (simp add: matchAll_isTag)
  have c7: "extractHashtags cs = [] \<longleftrightarrow> (\<forall>c \<in> set cs. \<not> hasHashtag (content c))"
    unfolding c1 by (rule spec_Nil_iff)
  have c8: "concat (map (\<lambda>c. matchAll (content c)) cs)
              = [str ''#Design'', str ''#design'', str ''#UI'']
        \<longrightarrow> extractHashtags cs = [(str ''#design'', 2), (str ''#ui'', 1)]"
    unfolding c1 using spec_example by blast
  from c1 c2 c3 c4 c5 c6 c7 c8 show ?thesis by (intro conjI)
qed

text \<open>
  Five tags, one of them twice: the tag with two occurrences leads, the others follow in
  the order of first encounter, and the fifth entry is cut.
\<close>

lemma extractHashtags_exampleTies:
  "extractHashtags exampleTies
     = [(str ''#a'', 2), (str ''#b'', 1), (str ''#c'', 1), (str ''#d'', 1)]"
proof -
  have "concat (map (\<lambda>c. matchAll (content c)) exampleTies)
          = [str ''#b'', str ''#a'', str ''#c'', str ''#A'', str ''#d'', str ''#e'']"
    by (simp add: exampleTies_def str_def isTagChar_def)
  then have "hashtagTokens exampleTies
          = [str ''#b'', str ''#a'', str ''#c'', str ''#a'', str ''#d'', str ''#e'']"
    unfolding hashtagTokens_matches by (simp add: toLowerCase_def lowerChar_def str_def)
  then show ?thesis
    by (simp add: extractHashtags_spec extractTrendingTags_spec_def tally_def str_def)
qed

lemma exampleComments_matches:
  "concat (map (\<lambda>c. matchAll (content c)) exampleComments)
     = [str ''#Design'', str ''#design'', str ''#UI'']"
  by (simp add: exampleComments_def str_def isTagChar_def)

theorem extractHashtags_trending_witness:
  "concat (map (\<lambda>c. matchAll (content c)) exampleComments)
     = [str ''#Design'', str ''#design'', str ''#UI'']
   \<and> extractHashtags exampleComments = [(str ''#design'', 2), (str ''#ui'', 1)]
   \<and> hashtagTokens exampleComments = [str ''#design'', str ''#design'', str ''#ui'']
   \<and> (str ''#design'', 2) \<in> set (extractHashtags exampleComments)
   \<and> isLowerTag (str ''#design'')
   \<and> 2 = count_list (hashtagTokens exampleComments) (str ''#design'')
   \<and> str ''#Design'' \<in> set (matchAll (content (hd exampleComments)))
   \<and> isTag (str ''#Design'')"
proof -
  have h: "hd exampleComments \<in> set exampleComments"
    "str ''#Design'' \<in> set (matchAll (content (hd exampleComments)))"
    by (simp_all add: exampleComments_def str_def isTagChar_def)
  with extractHashtags_trending [of exampleComments] have g: "isTag (str ''#Design'')"
    by blast
  have r: "extractHashtags exampleComments = [(str ''#design'', 2), (str ''#ui'', 1)]"
    using extractHashtags_trending [of exampleComments] exampleComments_matches by blast
  then have m: "(str ''#design'', 2) \<in> set (extractHashtags exampleComments)" by simp
  have t: "hashtagTokens exampleComments = [str ''#design'', str ''#design'', str ''#ui'']"
    unfolding hashtagTokens_matches exampleComments_matches
    by (simp add: toLowerCase_def lowerChar_def str_def)
  from extractHashtags_trending [of exampleComments] m
  have "isLowerTag (fst (str ''#design'', 2::nat))
      \<and> snd (str ''#design'', 2::nat) = count_list (hashtagTokens exampleComments) (fst (str ''#design'', 2::nat))"
    by blast
  with r m t h g exampleComments_matches show ?thesis by simp
qed

end
